theory Spec2Isabelle
  imports Complex_Main "HOL-Library.Char_ord" "HOL-Library.List_Lexorder" "HOL-Library.Multiset"
begin

section \<open>Shared Python notions\<close>

text \<open>
  The exceptions of the Python code that the modelled functions can raise. A function
  that can raise returns \<open>error + 'a\<close>, with \<open>Inl\<close> for the exception.
\<close>

datatype error = AttributeError | AssertionError | IndexError | KeyError | TimeoutError

text \<open>
  Values of request parameters (the keyword arguments of an iterator): integers, strings
  and lists of strings (tag lists). Strings are compared as Python compares them,
  lexicographically by character code.
\<close>

datatype pyval = PInt int | PStr string | PList "string list"

text \<open>\<^verbatim>\<open>sep.join(pieces)\<close>\<close>

fun str_join :: "string \<Rightarrow> string list \<Rightarrow> string" where
  "str_join sep [] = []"
| "str_join sep [x] = x"
| "str_join sep (x # y # ys) = x @ sep @ str_join sep (y # ys)"

section \<open>Filters and iterators (api/iterators.py, filters/iterators.py)\<close>

text \<open>
  A filter is a callable on items with a \<^verbatim>\<open>__repr__\<close>: the predicate it computes and
  its canonical representation.
\<close>

record 'a ib_filter =
  accepts :: "'a \<Rightarrow> bool"
  filter_repr :: string

text \<open>
  The fields of \<^verbatim>\<open>ImageBoardIterator\<close> that the fingerprint and the page cursor use.
  \<open>request_data\<close> is the dict of keyword arguments in insertion order;
  \<open>requested\<close> is a log of the page numbers sent to the API (not a field of the
  source: it records the calls of \<^verbatim>\<open>self.api.request\<close>).
\<close>

record 'a iterator =
  username :: string
  endpoint :: string
  filters :: "'a ib_filter list"
  request_data :: "(string \<times> pyval) list"
  iterator_type :: string
  starting_page :: int
  next_page :: "int option"
  requested :: "int list"

subsection \<open>Fingerprint\<close>

text \<open>
  \<^verbatim>\<open>ImageBoardIterator._hash\<close>. The digest \<open>md5\<close> (hashlib) and the formatting
  \<open>fmt\<close> of a value inside an f-string (Python's built-in \<^verbatim>\<open>str\<close>) are not code of
  the repository and are parameters. As in the source, \<open>filter_data\<close> is computed and
  sorted, and only \<open>request_data\<close> is appended to \<open>hash_pieces\<close>.
\<close>

definition normalized_value :: "pyval \<Rightarrow> pyval" where
  "normalized_value v = (case v of PList xs \<Rightarrow> PList (sort xs) | _ \<Rightarrow> v)"

definition ImageBoardIterator_hash ::
    "(string \<Rightarrow> string) \<Rightarrow> (pyval \<Rightarrow> string) \<Rightarrow> 'a iterator \<Rightarrow> string" where
  "ImageBoardIterator_hash md5 fmt it =
     (let hash_pieces = [username it, endpoint it];
          request_strings = map (\<lambda>(key, v). key @ '':'' @ fmt (normalized_value v)) (request_data it);
          request_strings = sort request_strings;
          filter_data = map filter_repr (filters it);
          filter_data = sort filter_data;
          hash_pieces = hash_pieces @ request_strings;
          request_string = str_join ''_'' hash_pieces
      in md5 request_string)"

text \<open>
  Two parameter dicts hold the same parameters when one is a reordering of the other,
  up to the order of the elements of list values.
\<close>

fun same_value :: "pyval \<Rightarrow> pyval \<Rightarrow> bool" where
  "same_value (PList xs) (PList ys) = (mset xs = mset ys)"
| "same_value v w = (v = w)"

definition same_param :: "string \<times> pyval \<Rightarrow> string \<times> pyval \<Rightarrow> bool" where
  "same_param p q = (fst p = fst q \<and> same_value (snd p) (snd q))"

definition same_parameters :: "(string \<times> pyval) list \<Rightarrow> (string \<times> pyval) list \<Rightarrow> bool" where
  "same_parameters rd1 rd2 = (\<exists>rd. list_all2 same_param rd1 rd \<and> mset rd = mset rd2)"

subsection \<open>The posts iterator's constructor\<close>

definition banned_metatags :: "string list" where
  "banned_metatags = [''order'', ''limit'', ''page'', ''tags'']"

text \<open>
  The loop of \<^verbatim>\<open>ImageBoardPostsIterator.__init__\<close> that collects the tags to remove.
  \<open>tags_to_remove\<close> is a Python list, and \<^verbatim>\<open>tags_to_remove.add(tag)\<close> raises
  AttributeError, a list having no method \<^verbatim>\<open>add\<close>. \<^verbatim>\<open>tag.split(':')[0]\<close> is the part
  of the tag before its first colon.
\<close>

definition has_banned_metatag :: "string \<Rightarrow> bool" where
  "has_banned_metatag tag =
     (CHR '':'' \<in> set tag \<and> takeWhile (\<lambda>c. c \<noteq> CHR '':'') tag \<in> set banned_metatags)"

fun find_tags_to_remove :: "string list \<Rightarrow> string list \<Rightarrow> error + string list" where
  "find_tags_to_remove tags_to_remove [] = Inr tags_to_remove"
| "find_tags_to_remove tags_to_remove (tag # tags) =
     (if has_banned_metatag tag then Inl AttributeError
      else find_tags_to_remove tags_to_remove tags)"

text \<open>
  \<^verbatim>\<open>ImageBoardPostsIterator.__init__\<close> up to the call of the superclass constructor: the
  request data it builds, or the exception it raises. No request is sent by a constructor
  (the superclass constructors compute the fingerprint and load the cache file).
\<close>

definition posts_request_data :: "string list \<Rightarrow> int option \<Rightarrow> error + (string \<times> pyval) list" where
  "posts_request_data tags limit =
     (case find_tags_to_remove [] tags of
        Inl e \<Rightarrow> Inl e
      | Inr tags_to_remove \<Rightarrow>
          (let tags1 = filter (\<lambda>tag. tag \<notin> set tags_to_remove) tags
           in if \<not> length tags1 < 40 then Inl AssertionError
              else (let tags2 = sort (tags1 @ [''order:id''])
                    in Inr ((''tags'', PStr (str_join '' '' tags2)) #
                            (case limit of None \<Rightarrow> [] | Some l \<Rightarrow> [(''limit'', PInt l)])))))"

definition ImageBoardPostsIterator_init ::
    "string \<Rightarrow> string \<Rightarrow> string list \<Rightarrow> 'a ib_filter list \<Rightarrow> int option \<Rightarrow> error + 'a iterator" where
  "ImageBoardPostsIterator_init user posts_endpoint tags fs limit =
     (case posts_request_data tags limit of
        Inl e \<Rightarrow> Inl e
      | Inr rd \<Rightarrow> Inr \<lparr>username = user, endpoint = posts_endpoint, filters = fs,
                       request_data = rd, iterator_type = ''posts'', starting_page = 0,
                       next_page = Some 0, requested = []\<rparr>)"

text \<open>
  \<^verbatim>\<open>ImageBoardApi.list_posts\<close>, with the fields of the API object it reads.
  \<^verbatim>\<open>list(set(combined_tags))\<close> removes duplicates; the order it leaves is immaterial,
  the constructor sorting the tags.
\<close>

record api =
  api_username :: string
  base_url :: string
  base_search_tags :: "string list"
  default_request_page_size :: int

definition MAX_TAGS_PER_REQUEST :: nat where
  "MAX_TAGS_PER_REQUEST = 40"

definition generate_posts_endpoint :: "api \<Rightarrow> string" where
  "generate_posts_endpoint a = str_join ''/'' [base_url a, ''posts''] @ ''.json''"

definition list_posts :: "api \<Rightarrow> string list \<Rightarrow> 'a ib_filter list \<Rightarrow> bool \<Rightarrow> error + 'a iterator" where
  "list_posts a tags fs include_base_tags =
     (if \<not> length tags + length (base_search_tags a) \<le> MAX_TAGS_PER_REQUEST then Inl AssertionError
      else (let combined_tags = (if include_base_tags then base_search_tags a else []) @ tags;
                combined_tags = remdups combined_tags
            in ImageBoardPostsIterator_init (api_username a) (generate_posts_endpoint a)
                 combined_tags fs (Some (default_request_page_size a))))"

subsection \<open>The page-number protocol\<close>

text \<open>\<^verbatim>\<open>ImageBoardIterator._filter_page_items\<close>: an item is kept when every filter accepts it.\<close>

definition filter_page_items :: "'a iterator \<Rightarrow> 'a list \<Rightarrow> 'a list" where
  "filter_page_items it page_items =
     filter (\<lambda>item. list_all (\<lambda>f. accepts f item) (filters it)) page_items"

definition handle_ImageBoard_page_items :: "'a iterator \<Rightarrow> 'a list \<Rightarrow> int \<Rightarrow> 'a list" where
  "handle_ImageBoard_page_items it page_items page =
     (if length page_items = 0 then []
      else if filters it \<noteq> [] then
        (let filtered_page_items = filter_page_items it page_items
         in if length filtered_page_items = 0 then [] else filtered_page_items)
      else page_items)"

text \<open>
  \<^verbatim>\<open>ImageBoardIterator._handle_ImageBoard_page\<close>. A response is a JSON object, the list
  of its keys and values in order; the page's items are the value of its first key, and an
  object with no key raises IndexError. When no item survives the filters the source resets
  \<open>_next_page\<close> to the page and calls \<^verbatim>\<open>self._get_next_page()\<close>, a method that no class
  of the hierarchy defines: the call raises AttributeError. The iterator is returned with
  the result, an exception keeping the assignments made before it.
\<close>

definition handle_ImageBoard_page ::
    "'a iterator \<Rightarrow> (string \<times> 'a list) list \<Rightarrow> int \<Rightarrow> (error + 'a list) \<times> 'a iterator" where
  "handle_ImageBoard_page it response page =
     (case response of
        [] \<Rightarrow> (Inl IndexError, it)
      | (first_key, page_items) # _ \<Rightarrow>
          if length page_items = 0 then (Inr [], it)
          else (let it1 = it\<lparr>next_page := Some (page + 1)\<rparr>;
                    handled_page_items = handle_ImageBoard_page_items it1 page_items page
                in if length handled_page_items = 0
                   then (Inl AttributeError, it1\<lparr>next_page := Some page\<rparr>)
                   else (Inr handled_page_items, it1)))"

text \<open>
  \<^verbatim>\<open>ImageBoardIterator._get_next_data\<close>. \<open>api_request page\<close> is the decoded response
  of \<^verbatim>\<open>self.api.request(self.endpoint, "GET", page_data)\<close> for the request data with
  \<^verbatim>\<open>page_data["page"] = page\<close>. The page requested is \<open>_next_page\<close>, or
  \<open>starting_page\<close> when \<open>_next_page\<close> is None.
\<close>

definition page_to_request :: "'a iterator \<Rightarrow> int" where
  "page_to_request it = (case next_page it of None \<Rightarrow> starting_page it | Some p \<Rightarrow> p)"

definition get_next_data ::
    "(int \<Rightarrow> (string \<times> 'a list) list) \<Rightarrow> 'a iterator \<Rightarrow> (error + 'a list) \<times> 'a iterator" where
  "get_next_data api_request it =
     (let page = page_to_request it;
          it1 = it\<lparr>next_page := Some page, requested := requested it @ [page]\<rparr>;
          response = api_request page
      in case handle_ImageBoard_page it1 response page of
           (Inl e, it2) \<Rightarrow> (Inl e, it2)
         | (Inr final_page_items, it2) \<Rightarrow>
             if length final_page_items > 0
             then (Inr final_page_items, it2\<lparr>next_page := map_option (\<lambda>p. p + 1) (next_page it2)\<rparr>)
             else (Inr final_page_items, it2))"

text \<open>\<open>n\<close> successive extensions, whatever each of them returns or raises.\<close>

fun extensions :: "(int \<Rightarrow> (string \<times> 'a list) list) \<Rightarrow> nat \<Rightarrow> 'a iterator \<Rightarrow> 'a iterator" where
  "extensions api_request 0 it = it"
| "extensions api_request (Suc n) it = extensions api_request n (snd (get_next_data api_request it))"

section \<open>The persistent cache (DiskCache)\<close>

text \<open>
  The record table \<open>df\<close>, the file's content \<open>disk\<close>, the flag
  \<open>cache_source_available\<close> and the state \<open>source\<close> of the pluggable source. The
  source is the method \<^verbatim>\<open>_get_next_data\<close>, which subclasses override: a function from the
  source's state to a batch (or an exception) and the new state. The constructor always
  loads a table, so \<open>df\<close> is never None.
\<close>

record ('a, 's) disk_cache =
  df :: "'a list"
  disk :: "'a list"
  cache_source_available :: bool
  source :: 's

definition append_from_source ::
    "('s \<Rightarrow> (error + 'a list) \<times> 's) \<Rightarrow> ('a, 's) disk_cache \<Rightarrow> (error + bool) \<times> ('a, 's) disk_cache" where
  "append_from_source next_data c =
     (case next_data (source c) of
        (Inl e, s') \<Rightarrow> (Inl e, c\<lparr>source := s'\<rparr>)
      | (Inr new_data, s') \<Rightarrow>
          if length new_data = 0
          then (Inr False, c\<lparr>cache_source_available := False, source := s'\<rparr>)
          else (Inr True, c\<lparr>df := df c @ new_data, disk := df c @ new_data,
                             cache_source_available := True, source := s'\<rparr>))"

text \<open>
  \<^verbatim>\<open>self._df.iloc[index]\<close> for an integer index: a negative index counts from the end, an
  index out of bounds raises IndexError.
\<close>

definition iloc :: "'a list \<Rightarrow> int \<Rightarrow> error + 'a" where
  "iloc rows index =
     (if 0 \<le> index \<and> index < int (length rows) then Inr (rows ! nat index)
      else if index < 0 \<and> - index \<le> int (length rows) then Inr (rows ! nat (int (length rows) + index))
      else Inl IndexError)"

text \<open>The number of records still missing before index \<open>i\<close> is in bounds.\<close>

definition missing :: "'a list \<Rightarrow> int \<Rightarrow> nat" where
  "missing xs i = (if i < 0 then nat (- i - int (length xs)) else nat (i + 1 - int (length xs)))"

text \<open>\<^verbatim>\<open>DiskCache.__getitem__\<close>, the recursion of its \<^verbatim>\<open>except IndexError\<close> branch.\<close>

function getitem ::
    "('s \<Rightarrow> (error + 'a list) \<times> 's) \<Rightarrow> ('a, 's) disk_cache \<Rightarrow> int \<Rightarrow> (error + 'a) \<times> ('a, 's) disk_cache" where
  "getitem next_data c i =
     (case iloc (df c) i of
        Inr x \<Rightarrow> (Inr x, c)
      | Inl _ \<Rightarrow>
          if cache_source_available c then
            (case append_from_source next_data c of
               (Inl e, c') \<Rightarrow> (Inl e, c')
             | (Inr _, c') \<Rightarrow> getitem next_data c' i)
          else (Inl IndexError, c))"
  by pat_completeness auto
termination
  apply (relation "measure (\<lambda>(next_data, c, i). if cache_source_available c then 1 + missing (df c) i else 0)")
   apply simp
  apply (auto simp: append_from_source_def iloc_def missing_def Let_def
      split: prod.splits sum.splits if_splits)
  done

section \<open>The job scheduler (ThreadManager, api/main.py)\<close>

subsection \<open>Result retrieval\<close>

text \<open>
  Python's floats are doubles, and the result of an arithmetic operation on them is the
  double nearest to the exact result: \<open>fl\<close> is that rounding, a parameter of every
  function below that computes with floats. Doubles are reals here, and the comparisons of
  the code are exact.
\<close>





subsection \<open>The controller loop\<close>

text \<open>
  The queue of jobs and the list of active worker threads, with the two settings the
  controller reads. The constructor replaces a threshold that is not positive by 1.
\<close>

record ('j, 't) thread_manager =
  job_queue :: "'j list"
  active_threads :: "'t list"
  max_concurrent_threads :: int
  new_thread_job_threshold :: int

definition ThreadManager_init :: "int \<Rightarrow> int \<Rightarrow> ('j, 't) thread_manager" where
  "ThreadManager_init max_concurrent threshold =
     \<lparr>job_queue = [], active_threads = [], max_concurrent_threads = max_concurrent,
      new_thread_job_threshold = (if threshold > 0 then threshold else 1)\<rparr>"

text \<open>
  \<^verbatim>\<open>ThreadManager._cleanup_threads\<close>: a \<^verbatim>\<open>for\<close> loop over the list it removes from.
  Python's list iterator keeps an index \<open>i\<close> into the list as it is now, and
  \<^verbatim>\<open>remove\<close> deletes the first element equal to the thread.
\<close>

function cleanup_threads_from :: "('t \<Rightarrow> bool) \<Rightarrow> nat \<Rightarrow> 't list \<Rightarrow> 't list" where
  "cleanup_threads_from is_alive i threads =
     (if i < length threads then
        (if is_alive (threads ! i) then cleanup_threads_from is_alive (i + 1) threads
         else cleanup_threads_from is_alive (i + 1) (remove1 (threads ! i) threads))
      else threads)"
  by pat_completeness auto
termination
  apply (relation "measure (\<lambda>(is_alive, i, threads). length threads - i)")
    apply simp
   apply simp
  apply (simp add: length_remove1)
  done

definition cleanup_threads :: "('t \<Rightarrow> bool) \<Rightarrow> ('j, 't) thread_manager \<Rightarrow> ('j, 't) thread_manager" where
  "cleanup_threads is_alive m =
     m\<lparr>active_threads := cleanup_threads_from is_alive 0 (active_threads m)\<rparr>"

text \<open>What one iteration of the controller loop did.\<close>

datatype 'j action = Spawned 'j | Pruned | Blocked

text \<open>
  \<^verbatim>\<open>ThreadManager._summon_thread_from_queue\<close>: takes the job at the head of the queue and
  starts a worker for it (\<open>worker job\<close> is the thread constructed); the worker adds
  itself to the active threads when it starts. \<^verbatim>\<open>Queue.get\<close> on an empty queue blocks.
\<close>

definition summon_thread_from_queue ::
    "('j \<Rightarrow> 't) \<Rightarrow> ('j, 't) thread_manager \<Rightarrow> 'j action \<times> ('j, 't) thread_manager" where
  "summon_thread_from_queue worker m =
     (case job_queue m of
        [] \<Rightarrow> (Blocked, m)
      | job # rest \<Rightarrow>
          (Spawned job, m\<lparr>job_queue := rest, active_threads := active_threads m @ [worker job]\<rparr>))"

definition desired_worker_count :: "('j, 't) thread_manager \<Rightarrow> int" where
  "desired_worker_count m =
     (let current_queue_size = int (length (job_queue m));
          desired_worker_count = (current_queue_size div new_thread_job_threshold m) + 1
      in if desired_worker_count \<le> max_concurrent_threads m then desired_worker_count
         else max_concurrent_threads m)"

text \<open>\<^verbatim>\<open>ThreadManager._manage_threads_work\<close>, one iteration of the controller loop.\<close>

definition manage_threads_work ::
    "('t \<Rightarrow> bool) \<Rightarrow> ('j \<Rightarrow> 't) \<Rightarrow> ('j, 't) thread_manager \<Rightarrow> 'j action \<times> ('j, 't) thread_manager" where
  "manage_threads_work is_alive worker m =
     (let desired_new_worker_count = desired_worker_count m - int (length (active_threads m))
      in if desired_new_worker_count > 0 then summon_thread_from_queue worker m
         else (Pruned, cleanup_threads is_alive m))"

text \<open>The condition of the controller's \<^verbatim>\<open>while\<close> loop (\<^verbatim>\<open>_manage_threads_job\<close>).\<close>

definition controller_running :: "('j, 't) thread_manager \<Rightarrow> bool" where
  "controller_running m = (job_queue m \<noteq> [] \<or> active_threads m \<noteq> [])"

section \<open>The rate limiter (RequestWorker, api/main.py)\<close>

text \<open>
  The settings that \<^verbatim>\<open>RequestWorker.__init__\<close> derives, and the limiter's counters.
  The two burst budgets are floats (a quotient times a length); the counters are integers.
\<close>

record limiter_config =
  min_base_request_interval_in_seconds :: real
  min_burst_request_interval_in_seconds :: real
  max_consecutive_burst_requests :: real
  min_consecutive_burst_requests :: real
  burst_cooldown_length_seconds :: real
  max_consecutive_burst_periods :: int

record limiter =
  consecutive_burst_requests :: int
  consecutive_burst_periods :: int
  burst_available_after_timestamp :: real

text \<open>
  The arithmetic of \<^verbatim>\<open>RequestWorker.__init__\<close>, for limits per minute that are not zero
  (Python raises ZeroDivisionError on a zero limit). Each quotient and each product is
  rounded.
\<close>

definition RequestWorker_config ::
    "(real \<Rightarrow> real) \<Rightarrow> real \<Rightarrow> real \<Rightarrow> real \<Rightarrow> real \<Rightarrow> real \<Rightarrow> int \<Rightarrow> limiter_config" where
  "RequestWorker_config fl base_requests_per_minute_limit burst_requests_per_minute_limit
       max_burst_length_seconds min_burst_length_seconds cooldown max_periods =
     (let burst_requests_per_second_limit = fl (60 / burst_requests_per_minute_limit)
      in \<lparr>min_base_request_interval_in_seconds = fl (60 / base_requests_per_minute_limit),
          min_burst_request_interval_in_seconds = fl (60 / burst_requests_per_minute_limit),
          max_consecutive_burst_requests = fl (burst_requests_per_second_limit * max_burst_length_seconds),
          min_consecutive_burst_requests = fl (burst_requests_per_second_limit * min_burst_length_seconds),
          burst_cooldown_length_seconds = cooldown,
          max_consecutive_burst_periods = max_periods\<rparr>)"



definition initial_limiter :: limiter where
  "initial_limiter = \<lparr>consecutive_burst_requests = 0, consecutive_burst_periods = 0,
                       burst_available_after_timestamp = 0\<rparr>"

text \<open>Which of the two intervals \<^verbatim>\<open>_determine_interval\<close> returns.\<close>

datatype interval = Burst | Base

definition interval_seconds :: "limiter_config \<Rightarrow> interval \<Rightarrow> real" where
  "interval_seconds cfg iv =
     (case iv of Burst \<Rightarrow> min_burst_request_interval_in_seconds cfg
               | Base \<Rightarrow> min_base_request_interval_in_seconds cfg)"

text \<open>
  \<^verbatim>\<open>RequestWorker._determine_interval\<close>. Each evaluation, the recursive one too, reads the
  clock anew: \<open>now k\<close> is reading number \<open>k\<close> of the clock during one computation,
  which starts at \<open>k = 0\<close>.
\<close>

function determine_interval ::
    "(real \<Rightarrow> real) \<Rightarrow> limiter_config \<Rightarrow> (nat \<Rightarrow> real) \<Rightarrow> nat \<Rightarrow> limiter \<Rightarrow> interval \<times> limiter" where
  "determine_interval fl cfg now k s =
     (let query_run_time = now k;
          cooldown_active = (query_run_time \<le> burst_available_after_timestamp s);
          new_burst_periods_available = (consecutive_burst_periods s < max_consecutive_burst_periods cfg);
          new_burst_requests_available =
            (real_of_int (consecutive_burst_requests s) < max_consecutive_burst_requests cfg)
      in if \<not> new_burst_requests_available \<and> new_burst_periods_available then
           determine_interval fl cfg now (Suc k)
             (s\<lparr>consecutive_burst_periods := consecutive_burst_periods s + 1,
                consecutive_burst_requests := 0,
                burst_available_after_timestamp := fl (query_run_time + burst_cooldown_length_seconds cfg)\<rparr>)
         else if \<not> cooldown_active \<and> new_burst_requests_available then
           (Burst, s\<lparr>consecutive_burst_requests := consecutive_burst_requests s + 1\<rparr>)
         else (Base, s))"
  by pat_completeness auto
termination
  apply (relation "measure (\<lambda>(fl, cfg, now, k, s). nat (max_consecutive_burst_periods cfg - consecutive_burst_periods s))")
   apply simp
  apply simp
  done

text \<open>
  The end of \<^verbatim>\<open>RequestWorker._manage_threads_work\<close>: the reset of the burst state,
  which compares the period counter with \<open>min_consecutive_burst_requests\<close>;
  \<open>query_run_time\<close> is the clock's reading there.
\<close>

definition reset_burst_state :: "(real \<Rightarrow> real) \<Rightarrow> limiter_config \<Rightarrow> real \<Rightarrow> limiter \<Rightarrow> limiter" where
  "reset_burst_state fl cfg query_run_time s =
     (if real_of_int (consecutive_burst_periods s) \<ge> min_consecutive_burst_requests cfg then
        s\<lparr>consecutive_burst_periods := 0, consecutive_burst_requests := 0,
          burst_available_after_timestamp := fl (query_run_time + burst_cooldown_length_seconds cfg)\<rparr>
      else s)"

text \<open>
  One iteration of the request worker's controller loop, as the limiter sees it. The
  inherited \<^verbatim>\<open>ThreadManager._manage_threads_work\<close> either summons a worker for the next
  job, and \<^verbatim>\<open>RequestWorker._summon_thread\<close> then computes one interval (\<open>Summon\<close>,
  with the clock of that computation), or cleans up the finished threads (\<open>Cleanup\<close>);
  which of the two depends on the queue and on the active threads. The second component
  is the clock's reading at the reset that ends the iteration. (An iteration that finds
  the queue empty when it takes a job blocks there; it computes no interval and changes
  no counter before another job arrives.)
\<close>

datatype iteration = Summon "nat \<Rightarrow> real" real | Cleanup real

text \<open>
  \<^verbatim>\<open>RequestWorker._manage_threads_work\<close>: the inherited iteration, then the reset. It
  returns the interval computed, if one was.
\<close>

definition RequestWorker_manage_threads_work ::
    "(real \<Rightarrow> real) \<Rightarrow> limiter_config \<Rightarrow> iteration \<Rightarrow> limiter \<Rightarrow> interval option \<times> limiter" where
  "RequestWorker_manage_threads_work fl cfg it s =
     (case it of
        Summon now query_run_time \<Rightarrow>
          (case determine_interval fl cfg now 0 s of
             (iv, s') \<Rightarrow> (Some iv, reset_burst_state fl cfg query_run_time s'))
      | Cleanup query_run_time \<Rightarrow> (None, reset_burst_state fl cfg query_run_time s))"

text \<open>
  The loop of \<^verbatim>\<open>_manage_threads_job\<close> over a list of iterations: the intervals computed,
  in order, and the limiter's state at the end.
\<close>

fun manage_threads_job ::
    "(real \<Rightarrow> real) \<Rightarrow> limiter_config \<Rightarrow> iteration list \<Rightarrow> limiter \<Rightarrow> interval list \<times> limiter" where
  "manage_threads_job fl cfg [] s = ([], s)"
| "manage_threads_job fl cfg (it # its) s =
     (case RequestWorker_manage_threads_work fl cfg it s of
        (r, s') \<Rightarrow>
          (case manage_threads_job fl cfg its s' of
             (ivs, s'') \<Rightarrow> ((case r of None \<Rightarrow> ivs | Some iv \<Rightarrow> iv # ivs), s'')))"



declare getitem.simps [simp del]
declare cleanup_threads_from.simps [simp del]
declare determine_interval.simps [simp del]

section \<open>Fingerprints\<close>

lemma sort_cong_mset: "mset xs = mset ys \<Longrightarrow> sort xs = sort (ys :: 'a::linorder list)"
  by (rule properties_for_sort) simp_all

lemma same_value_normalized: "same_value v w \<Longrightarrow> normalized_value v = normalized_value w"
  by (cases v; cases w) (auto simp: normalized_value_def intro: sort_cong_mset)

lemma same_param_request_string:
  "list_all2 same_param rd1 rd \<Longrightarrow>
     map (\<lambda>(key, v). key @ '':'' @ fmt (normalized_value v)) rd1 =
     map (\<lambda>(key, v). key @ '':'' @ fmt (normalized_value v)) rd"
  by (induction rule: list_all2_induct)
     (auto simp: same_param_def dest: same_value_normalized)

lemma hash_unfold:
  "ImageBoardIterator_hash md5 fmt it =
     md5 (str_join ''_'' ([username it, endpoint it] @
            sort (map (\<lambda>(key, v). key @ '':'' @ fmt (normalized_value v)) (request_data it))))"
  unfolding ImageBoardIterator_hash_def Let_def ..

text \<open>
  C1. The claim: two iterators that differ only in their filters have different
  fingerprints. The code computes \<open>filter_data\<close> and never adds it to the pieces that
  are hashed: whatever the digest and the formatting, the fingerprint of an iterator does
  not change when its filters are replaced, so an iterator with no filter and one with a
  filter share a cache file.
\<close>

theorem hash_ignores_filters:
  "ImageBoardIterator_hash md5 fmt (it\<lparr>filters := fs1\<rparr>) =
   ImageBoardIterator_hash md5 fmt (it\<lparr>filters := fs2\<rparr>)"
  unfolding hash_unfold by simp

text \<open>
  C9. Two iterators with the same requester, the same endpoint and the same request
  parameters, given in another key order and with the elements of list values in another
  order, have the same fingerprint.
\<close>

theorem hash_order_insensitive:
  assumes "username it1 = username it2" and "endpoint it1 = endpoint it2"
    and "same_parameters (request_data it1) (request_data it2)"
  shows "ImageBoardIterator_hash md5 fmt it1 = ImageBoardIterator_hash md5 fmt it2"
proof -
  let ?f = "\<lambda>(key, v). key @ '':'' @ fmt (normalized_value v)"
  from assms(3) obtain rd where a: "list_all2 same_param (request_data it1) rd"
    and b: "mset rd = mset (request_data it2)"
    unfolding same_parameters_def by blast
  have "map ?f (request_data it1) = map ?f rd"
    using a by (rule same_param_request_string)
  moreover have "mset (map ?f rd) = mset (map ?f (request_data it2))"
    using b by (simp only: mset_map)
  ultimately have "mset (map ?f (request_data it1)) = mset (map ?f (request_data it2))"
    by (rule ssubst)
  then have "sort (map ?f (request_data it1)) = sort (map ?f (request_data it2))"
    by (rule sort_cong_mset)
  then show ?thesis
    unfolding hash_unfold by (simp only: assms(1,2))
qed

theorem hash_order_insensitive_witness:
  "same_parameters [(''tags'', PList [''b'', ''a'']), (''limit'', PInt 320)]
                   [(''limit'', PInt 320), (''tags'', PList [''a'', ''b''])] \<and>
   ImageBoardIterator_hash (\<lambda>s. s)
     (\<lambda>v. case v of PInt n \<Rightarrow> ''320'' | PStr s \<Rightarrow> s | PList xs \<Rightarrow> str_join '', '' xs)
     (\<lparr>username = ''u'', endpoint = ''e'', filters = [],
       request_data = [(''tags'', PList [''b'', ''a'']), (''limit'', PInt 320)],
       iterator_type = ''posts'', starting_page = 1, next_page = Some 1, requested = []\<rparr> :: nat iterator) =
   ImageBoardIterator_hash (\<lambda>s. s)
     (\<lambda>v. case v of PInt n \<Rightarrow> ''320'' | PStr s \<Rightarrow> s | PList xs \<Rightarrow> str_join '', '' xs)
     (\<lparr>username = ''u'', endpoint = ''e'', filters = [],
       request_data = [(''limit'', PInt 320), (''tags'', PList [''a'', ''b''])],
       iterator_type = ''posts'', starting_page = 1, next_page = Some 1, requested = []\<rparr> :: nat iterator)"
proof -
  have sp: "same_parameters [(''tags'', PList [''b'', ''a'']), (''limit'', PInt 320)]
                   [(''limit'', PInt 320), (''tags'', PList [''a'', ''b''])]"
    unfolding same_parameters_def
    by (rule exI[of _ "[(''tags'', PList [''a'', ''b'']), (''limit'', PInt 320)]"])
       (simp add: same_param_def)
  have "ImageBoardIterator_hash (\<lambda>s. s)
     (\<lambda>v. case v of PInt n \<Rightarrow> ''320'' | PStr s \<Rightarrow> s | PList xs \<Rightarrow> str_join '', '' xs)
     (\<lparr>username = ''u'', endpoint = ''e'', filters = [],
       request_data = [(''tags'', PList [''b'', ''a'']), (''limit'', PInt 320)],
       iterator_type = ''posts'', starting_page = 1, next_page = Some 1, requested = []\<rparr> :: nat iterator) =
   ImageBoardIterator_hash (\<lambda>s. s)
     (\<lambda>v. case v of PInt n \<Rightarrow> ''320'' | PStr s \<Rightarrow> s | PList xs \<Rightarrow> str_join '', '' xs)
     (\<lparr>username = ''u'', endpoint = ''e'', filters = [],
       request_data = [(''limit'', PInt 320), (''tags'', PList [''a'', ''b''])],
       iterator_type = ''posts'', starting_page = 1, next_page = Some 1, requested = []\<rparr> :: nat iterator)"
    by (rule hash_order_insensitive) (simp_all add: sp)
  with sp show ?thesis by (rule conjI)
qed

section \<open>The posts iterator's constructor\<close>

lemma find_tags_to_remove_eq:
  "find_tags_to_remove acc tags =
     (if \<exists>tag \<in> set tags. has_banned_metatag tag then Inl AttributeError else Inr acc)"
  by (induction tags) auto

text \<open>
  C8. The claim: tags with a reserved metatag are stripped and construction completes. On
  the tag list \<open>[''order:score'']\<close> the constructor raises AttributeError where it
  records the tag to remove, and builds no request data.
\<close>

theorem posts_init_reserved_tag_raises:
  "ImageBoardPostsIterator_init user posts_endpoint [''order:score''] fs (Some 320) = Inl AttributeError"
  by (simp add: ImageBoardPostsIterator_init_def posts_request_data_def has_banned_metatag_def
      banned_metatags_def)

text \<open>
  The tag budget: \<open>list_posts\<close> raises at its assertion on every list of 41 tags, and so
  does the constructor called directly on 41 tags none of which has a reserved metatag.
\<close>

lemma tag_budget_41_tags:
  assumes "length tags = 41"
  shows "list_posts a tags fs include_base_tags = Inl AssertionError \<and>
         ((\<forall>tag \<in> set tags. \<not> has_banned_metatag tag)
            \<longrightarrow> ImageBoardPostsIterator_init user posts_endpoint tags fs limit = Inl AssertionError)"
  using assms
  by (auto simp: list_posts_def MAX_TAGS_PER_REQUEST_def ImageBoardPostsIterator_init_def
      posts_request_data_def find_tags_to_remove_eq)

text \<open>
  C10. The claim: a posts query with 41 distinct tags, made through \<open>list_posts\<close> or
  through the constructor, is refused by the tag-budget check. On the 41 distinct tags
  \<open>order:score, a, aa, aaa, \<dots>\<close> the constructor raises AttributeError where it records
  the tag to remove, before it reaches its tag-budget assertion; \<open>list_posts\<close> raises at
  the tag-budget assertion on the same tags.
\<close>

theorem posts_init_41_tags_reserved_tag:
  "length (''order:score'' # map (\<lambda>n. replicate n CHR ''a'') [1..<41]) = 41 \<and>
   distinct (''order:score'' # map (\<lambda>n. replicate n CHR ''a'') [1..<41]) \<and>
   ImageBoardPostsIterator_init ''u'' ''e'' (''order:score'' # map (\<lambda>n. replicate n CHR ''a'') [1..<41])
       ([] :: nat ib_filter list) (Some 320) = Inl AttributeError \<and>
   ImageBoardPostsIterator_init ''u'' ''e'' (''order:score'' # map (\<lambda>n. replicate n CHR ''a'') [1..<41])
       ([] :: nat ib_filter list) (Some 320) \<noteq> Inl AssertionError \<and>
   list_posts \<lparr>api_username = ''u'', base_url = ''https://b'', base_search_tags = [],
               default_request_page_size = 320\<rparr>
       (''order:score'' # map (\<lambda>n. replicate n CHR ''a'') [1..<41]) ([] :: nat ib_filter list) True
     = Inl AssertionError"
proof -
  have d: "distinct (map (\<lambda>n. replicate n CHR ''a'') [1..<41])"
    by (simp add: distinct_map inj_on_def)
  have "''order:score'' \<noteq> replicate x CHR ''a''" for x
    by (cases x) simp_all
  then have n: "''order:score'' \<notin> set (map (\<lambda>n. replicate n CHR ''a'') [1..<41])"
    by auto
  have i: "ImageBoardPostsIterator_init ''u'' ''e'' (''order:score'' # map (\<lambda>n. replicate n CHR ''a'') [1..<41])
       ([] :: nat ib_filter list) (Some 320) = Inl AttributeError"
    by (simp add: ImageBoardPostsIterator_init_def posts_request_data_def has_banned_metatag_def
        banned_metatags_def)
  have l: "list_posts \<lparr>api_username = ''u'', base_url = ''https://b'', base_search_tags = [],
               default_request_page_size = 320\<rparr>
       (''order:score'' # map (\<lambda>n. replicate n CHR ''a'') [1..<41]) ([] :: nat ib_filter list) True
     = Inl AssertionError"
    by (simp add: list_posts_def MAX_TAGS_PER_REQUEST_def)
  show ?thesis
    using d n i l by simp
qed

section \<open>The page-number protocol\<close>

lemma handle_items_survivors:
  "filter_page_items it page_items \<noteq> [] \<Longrightarrow>
   handle_ImageBoard_page_items it page_items page = filter_page_items it page_items"
  by (cases "filters it = []")
     (auto simp: handle_ImageBoard_page_items_def filter_page_items_def Let_def)

lemma handle_items_cursor_irrelevant:
  "handle_ImageBoard_page_items (it\<lparr>next_page := x\<rparr>) page_items page =
     handle_ImageBoard_page_items it page_items page"
  "handle_ImageBoard_page_items (it\<lparr>requested := y\<rparr>) page_items page =
     handle_ImageBoard_page_items it page_items page"
  by (simp_all add: handle_ImageBoard_page_items_def filter_page_items_def)

lemma get_next_data_survivors:
  assumes "page_to_request it = p" and "api_request p = (key, page_items) # rest"
    and "filter_page_items it page_items \<noteq> []"
  shows "get_next_data api_request it =
           (Inr (filter_page_items it page_items),
            it\<lparr>next_page := Some (p + 2), requested := requested it @ [p]\<rparr>)"
proof -
  from assms(3) have ne: "page_items \<noteq> []"
    by (auto simp: filter_page_items_def)
  have h: "handle_ImageBoard_page_items it page_items p = filter_page_items it page_items"
    using assms(3) by (rule handle_items_survivors)
  show ?thesis
    using assms ne h
    by (simp add: get_next_data_def handle_ImageBoard_page_def Let_def
        handle_items_cursor_irrelevant)
qed

lemma get_next_data_step:
  "\<exists>q. requested (snd (get_next_data api_request it)) = requested it @ [page_to_request it] \<and>
       next_page (snd (get_next_data api_request it)) = Some q \<and> page_to_request it \<le> q"
  by (auto simp: get_next_data_def handle_ImageBoard_page_def Let_def
      split: option.splits list.splits prod.splits sum.splits)

lemma extensions_requests:
  "\<exists>ys. requested (extensions api_request n it) = requested it @ ys \<and>
        (\<forall>x \<in> set ys. page_to_request it \<le> x)"
proof (induction n arbitrary: it)
  case 0
  then show ?case by simp
next
  case (Suc n)
  obtain q where q: "requested (snd (get_next_data api_request it)) = requested it @ [page_to_request it]"
    "next_page (snd (get_next_data api_request it)) = Some q" "page_to_request it \<le> q"
    using get_next_data_step[of api_request it] by blast
  from Suc.IH[of "snd (get_next_data api_request it)"] obtain ys where
    ys: "requested (extensions api_request n (snd (get_next_data api_request it))) =
           requested (snd (get_next_data api_request it)) @ ys"
        "\<forall>x \<in> set ys. page_to_request (snd (get_next_data api_request it)) \<le> x"
    by blast
  have "page_to_request (snd (get_next_data api_request it)) = q"
    using q(2) by (simp add: page_to_request_def)
  with q ys show ?case
    by (intro exI[of _ "page_to_request it # ys"]) auto
qed

text \<open>
  C2. The claim: when every item of a fetched page is removed by the filters, the next
  page is fetched automatically and \<open>next_page\<close> reflects it. On page 3 with ten items
  and a filter that rejects them all, the extension raises AttributeError (the retry calls
  a method that does not exist), \<open>next_page\<close> is 3 and page 3 is the only page
  requested, though the API has a page 4.
\<close>

theorem get_next_data_fully_filtered_page:
  "get_next_data
      (\<lambda>page. if page = 3 then [(''posts'', [1, 2, 3, 4, 5, 6, 7, 8, 9, 10 :: nat])]
               else [(''posts'', [11])])
      \<lparr>username = ''u'', endpoint = ''e'',
        filters = [\<lparr>accepts = (\<lambda>item. False), filter_repr = ''RejectAll()''\<rparr>],
        request_data = [], iterator_type = ''iterator'', starting_page = 1,
        next_page = Some 3, requested = []\<rparr>
   = (Inl AttributeError,
      \<lparr>username = ''u'', endpoint = ''e'',
        filters = [\<lparr>accepts = (\<lambda>item. False), filter_repr = ''RejectAll()''\<rparr>],
        request_data = [], iterator_type = ''iterator'', starting_page = 1,
        next_page = Some 3, requested = [3]\<rparr>)"
  by (simp add: get_next_data_def page_to_request_def handle_ImageBoard_page_def
      handle_ImageBoard_page_items_def filter_page_items_def Let_def)

text \<open>
  C3. An extension that fetches page \<open>p\<close>, not empty, with an item that survives the
  filters returns the surviving items and leaves \<open>_next_page\<close> at \<open>p + 2\<close>; page
  \<open>p + 1\<close> is not among the pages that any number \<open>n\<close> of later extensions request.
\<close>

theorem page_increment_applied_twice:
  assumes "page_to_request it = p" and "api_request p = (key, page_items) # rest"
    and "filter_page_items it page_items \<noteq> []"
  shows "fst (get_next_data api_request it) = Inr (filter_page_items it page_items) \<and>
         next_page (snd (get_next_data api_request it)) = Some (p + 2) \<and>
         requested (snd (get_next_data api_request it)) = requested it @ [p] \<and>
         p + 1 \<notin> set (drop (length (requested it) + 1)
                         (requested (extensions api_request n (snd (get_next_data api_request it)))))"
proof -
  let ?it' = "snd (get_next_data api_request it)"
  have g: "get_next_data api_request it =
           (Inr (filter_page_items it page_items),
            it\<lparr>next_page := Some (p + 2), requested := requested it @ [p]\<rparr>)"
    using assms by (rule get_next_data_survivors)
  have p2: "page_to_request ?it' = p + 2"
    using g by (simp add: page_to_request_def)
  obtain ys where ys: "requested (extensions api_request n ?it') = requested ?it' @ ys"
    "\<forall>x \<in> set ys. page_to_request ?it' \<le> x"
    using extensions_requests[of api_request n ?it'] by blast
  have "drop (length (requested it) + 1) (requested (extensions api_request n ?it')) = ys"
    using ys(1) g by simp
  moreover have "p + 1 \<notin> set ys"
    using ys(2) p2 by auto
  ultimately show ?thesis
    using g by simp
qed

theorem page_increment_applied_twice_witness:
  "page_to_request
     (\<lparr>username = ''u'', endpoint = ''e'',
       filters = [\<lparr>accepts = (\<lambda>item. even item), filter_repr = ''Even()''\<rparr>],
       request_data = [], iterator_type = ''iterator'', starting_page = 1,
       next_page = Some 3, requested = []\<rparr> :: nat iterator) = 3 \<and>
   filter_page_items
     (\<lparr>username = ''u'', endpoint = ''e'',
       filters = [\<lparr>accepts = (\<lambda>item. even item), filter_repr = ''Even()''\<rparr>],
       request_data = [], iterator_type = ''iterator'', starting_page = 1,
       next_page = Some 3, requested = []\<rparr> :: nat iterator) [1, 2, 3] = [2] \<and>
   next_page (snd (get_next_data (\<lambda>page. [(''posts'', if page = 3 then [1, 2, 3] else [7])])
     (\<lparr>username = ''u'', endpoint = ''e'',
       filters = [\<lparr>accepts = (\<lambda>item. even item), filter_repr = ''Even()''\<rparr>],
       request_data = [], iterator_type = ''iterator'', starting_page = 1,
       next_page = Some 3, requested = []\<rparr> :: nat iterator))) = Some 5 \<and>
   4 \<notin> set (drop 1 (requested (extensions (\<lambda>page. [(''posts'', if page = 3 then [1, 2, 3] else [7])]) 2
     (snd (get_next_data (\<lambda>page. [(''posts'', if page = 3 then [1, 2, 3] else [7])])
     (\<lparr>username = ''u'', endpoint = ''e'',
       filters = [\<lparr>accepts = (\<lambda>item. even item), filter_repr = ''Even()''\<rparr>],
       request_data = [], iterator_type = ''iterator'', starting_page = 1,
       next_page = Some 3, requested = []\<rparr> :: nat iterator))))))"
proof -
  let ?it = "\<lparr>username = ''u'', endpoint = ''e'',
       filters = [\<lparr>accepts = (\<lambda>item. even item), filter_repr = ''Even()''\<rparr>],
       request_data = [], iterator_type = ''iterator'', starting_page = 1,
       next_page = Some 3, requested = []\<rparr> :: nat iterator"
  let ?api = "\<lambda>page :: int. [(''posts'', if page = 3 then [1, 2, 3 :: nat] else [7])]"
  have p: "page_to_request ?it = 3"
    by (simp add: page_to_request_def)
  have r: "?api 3 = (''posts'', [1, 2, 3]) # []"
    by simp
  have f: "filter_page_items ?it [1, 2, 3] = [2]"
    by (simp add: filter_page_items_def)
  then have ne: "filter_page_items ?it [1, 2, 3] \<noteq> []"
    by simp
  show ?thesis
    using p f ne page_increment_applied_twice[of ?it 3 ?api "''posts''" "[1, 2, 3]" "[]" 2]
    by simp
qed

section \<open>Index access on the cache\<close>

text \<open>
  C4. An index access out of bounds: while the source is available it extends the cache
  from the source and retries (an exception of the source ends the access); an extension
  that returns an empty batch clears \<open>cache_source_available\<close>, and the retry then
  raises IndexError; with the flag cleared the access raises IndexError and leaves the
  cache, the state of the source included, as it is.
\<close>

theorem getitem_out_of_bounds:
  assumes "iloc (df c) i = Inl IndexError"
  shows "(cache_source_available c \<longrightarrow>
            getitem next_data c i =
              (case append_from_source next_data c of
                 (Inl e, c') \<Rightarrow> (Inl e, c')
               | (Inr extended, c') \<Rightarrow> getitem next_data c' i)) \<and>
         (cache_source_available c \<longrightarrow> next_data (source c) = (Inr [], s') \<longrightarrow>
            append_from_source next_data c =
              (Inr False, c\<lparr>cache_source_available := False, source := s'\<rparr>) \<and>
            getitem next_data c i =
              (Inl IndexError, c\<lparr>cache_source_available := False, source := s'\<rparr>)) \<and>
         (\<not> cache_source_available c \<longrightarrow> getitem next_data c i = (Inl IndexError, c))"
proof (intro conjI impI)
  assume "cache_source_available c"
  then show "getitem next_data c i =
              (case append_from_source next_data c of
                 (Inl e, c') \<Rightarrow> (Inl e, c')
               | (Inr extended, c') \<Rightarrow> getitem next_data c' i)"
    using assms by (subst getitem.simps) simp
next
  assume "cache_source_available c" and "next_data (source c) = (Inr [], s')"
  then show "append_from_source next_data c =
              (Inr False, c\<lparr>cache_source_available := False, source := s'\<rparr>)"
    by (simp add: append_from_source_def)
next
  assume a: "cache_source_available c" and e: "next_data (source c) = (Inr [], s')"
  have "getitem next_data c i =
          getitem next_data (c\<lparr>cache_source_available := False, source := s'\<rparr>) i"
    using assms a e by (subst getitem.simps) (simp add: append_from_source_def)
  also have "\<dots> = (Inl IndexError, c\<lparr>cache_source_available := False, source := s'\<rparr>)"
    using assms by (subst getitem.simps) simp
  finally show "getitem next_data c i =
      (Inl IndexError, c\<lparr>cache_source_available := False, source := s'\<rparr>)" .
next
  assume "\<not> cache_source_available c"
  then show "getitem next_data c i = (Inl IndexError, c)"
    using assms by (subst getitem.simps) simp
qed

theorem getitem_out_of_bounds_witness:
  "iloc [10, 20 :: nat] 5 = Inl IndexError \<and>
   getitem (\<lambda>s :: unit. (Inr [], s))
       \<lparr>df = [10, 20 :: nat], disk = [10, 20], cache_source_available = True, source = ()\<rparr> 5
     = (Inl IndexError, \<lparr>df = [10, 20], disk = [10, 20], cache_source_available = False, source = ()\<rparr>) \<and>
   getitem (\<lambda>s :: unit. (Inr [], s))
       \<lparr>df = [10, 20 :: nat], disk = [10, 20], cache_source_available = False, source = ()\<rparr> 5
     = (Inl IndexError, \<lparr>df = [10, 20], disk = [10, 20], cache_source_available = False, source = ()\<rparr>) \<and>
   getitem (\<lambda>s :: unit. (Inr [30, 40, 50, 60], s))
       \<lparr>df = [10, 20 :: nat], disk = [10, 20], cache_source_available = True, source = ()\<rparr> 5
     = (Inr 60, \<lparr>df = [10, 20, 30, 40, 50, 60], disk = [10, 20, 30, 40, 50, 60],
                 cache_source_available = True, source = ()\<rparr>)"
  using getitem_out_of_bounds[of
          "\<lparr>df = [10, 20 :: nat], disk = [10, 20], cache_source_available = True, source = ()\<rparr>" 5
          "\<lambda>s :: unit. (Inr [], s)" "()"]
        getitem_out_of_bounds[of
          "\<lparr>df = [10, 20 :: nat], disk = [10, 20], cache_source_available = False, source = ()\<rparr>" 5
          "\<lambda>s :: unit. (Inr [], s)" "()"]
        getitem_out_of_bounds[of
          "\<lparr>df = [10, 20 :: nat], disk = [10, 20], cache_source_available = True, source = ()\<rparr>" 5
          "\<lambda>s :: unit. (Inr [30, 40, 50, 60], s)" "()"]
  by (simp add: iloc_def append_from_source_def getitem.simps)

section \<open>Result retrieval\<close>











section \<open>The controller loop\<close>

text \<open>
  C7, as claimed: the desired worker count is the minimum of
  \<open>ceil (queue_size / threshold) + 1\<close> and the maximum, and a worker is spawned when
  fewer are active. With one job queued, a threshold of 60, a maximum of 4 and one active
  worker, the claimed count is 2; the code computes 1 and spawns nothing.
\<close>

theorem desired_count_not_ceiling:
  "desired_worker_count ((ThreadManager_init 4 60 :: (nat, nat) thread_manager)\<lparr>job_queue := [7], active_threads := [100]\<rparr>) = 1 \<and>
   min (\<lceil>real 1 / real 60\<rceil> + 1) 4 = (2 :: int) \<and>
   manage_threads_work (\<lambda>t. True) (\<lambda>j. j + 200)
      ((ThreadManager_init 4 60 :: (nat, nat) thread_manager)\<lparr>job_queue := [7], active_threads := [100]\<rparr>)
     = (Pruned, (ThreadManager_init 4 60)\<lparr>job_queue := [7], active_threads := [100]\<rparr>)"
proof -
  have c: "\<lceil>(1 :: real) / 60\<rceil> = 1"
    by (rule ceiling_unique) simp_all
  show ?thesis
    using c
    by (simp add: desired_worker_count_def ThreadManager_init_def manage_threads_work_def
        cleanup_threads_def cleanup_threads_from.simps)
qed

lemma desired_worker_count_floor:
  "desired_worker_count m =
     min (int (length (job_queue m)) div new_thread_job_threshold m + 1) (max_concurrent_threads m)"
  by (simp add: desired_worker_count_def Let_def min_def)

lemma int_div_floor: "(a :: int) div b = \<lfloor>real_of_int a / real_of_int b\<rfloor>"
  by (simp add: floor_divide_of_int_eq)

text \<open>
  C7, amended. On an iteration of the controller loop the desired worker count is the
  minimum of \<open>floor (queue_size / threshold) + 1\<close> and \<open>max_concurrent_threads\<close>.
  When fewer workers are active, the iteration takes one job from the queue and starts one
  worker for it (the queue is not empty then, the loop's condition holding); otherwise it
  runs the pruning pass \<open>cleanup_threads\<close>.
\<close>

theorem controller_iteration:
  assumes "0 < new_thread_job_threshold m"
  shows "desired_worker_count m =
           min (\<lfloor>real (length (job_queue m)) / real_of_int (new_thread_job_threshold m)\<rfloor> + 1)
               (max_concurrent_threads m) \<and>
         (int (length (active_threads m)) < desired_worker_count m \<longrightarrow>
            manage_threads_work is_alive worker m = summon_thread_from_queue worker m \<and>
            (\<forall>job rest. job_queue m = job # rest \<longrightarrow>
               manage_threads_work is_alive worker m =
                 (Spawned job, m\<lparr>job_queue := rest, active_threads := active_threads m @ [worker job]\<rparr>)) \<and>
            (controller_running m \<longrightarrow> job_queue m \<noteq> [])) \<and>
         (\<not> int (length (active_threads m)) < desired_worker_count m \<longrightarrow>
            manage_threads_work is_alive worker m = (Pruned, cleanup_threads is_alive m))"
proof -
  have d: "desired_worker_count m =
           min (\<lfloor>real (length (job_queue m)) / real_of_int (new_thread_job_threshold m)\<rfloor> + 1)
               (max_concurrent_threads m)"
    unfolding desired_worker_count_floor
    using int_div_floor[of "int (length (job_queue m))" "new_thread_job_threshold m"]
    by simp
  have r: "job_queue m \<noteq> []"
    if "int (length (active_threads m)) < desired_worker_count m" "controller_running m"
  proof
    assume e: "job_queue m = []"
    then have "desired_worker_count m \<le> 1"
      by (simp add: desired_worker_count_floor)
    with that(1) have "active_threads m = []" by (cases "active_threads m") auto
    with e that(2) show False by (simp add: controller_running_def)
  qed
  show ?thesis
    using d r
    by (auto simp: manage_threads_work_def Let_def summon_thread_from_queue_def)
qed

theorem controller_iteration_witness:
  "0 < new_thread_job_threshold
         ((ThreadManager_init 2 1 :: (nat, nat) thread_manager)\<lparr>job_queue := [7, 8], active_threads := [100]\<rparr>) \<and>
   desired_worker_count
         ((ThreadManager_init 2 1 :: (nat, nat) thread_manager)\<lparr>job_queue := [7, 8], active_threads := [100]\<rparr>) = 2 \<and>
   controller_running
         ((ThreadManager_init 2 1 :: (nat, nat) thread_manager)\<lparr>job_queue := [7, 8], active_threads := [100]\<rparr>) \<and>
   manage_threads_work (\<lambda>t. True) (\<lambda>job. job + 200)
         ((ThreadManager_init 2 1 :: (nat, nat) thread_manager)\<lparr>job_queue := [7, 8], active_threads := [100]\<rparr>)
     = (Spawned 7, (ThreadManager_init 2 1)\<lparr>job_queue := [8], active_threads := [100, 207]\<rparr>) \<and>
   manage_threads_work (\<lambda>t. t \<noteq> 100) (\<lambda>job. job + 200)
         ((ThreadManager_init 2 1 :: (nat, nat) thread_manager)\<lparr>job_queue := [8], active_threads := [100, 207]\<rparr>)
     = (Pruned, (ThreadManager_init 2 1)\<lparr>job_queue := [8], active_threads := [207]\<rparr>)"
  using controller_iteration[of
          "(ThreadManager_init 2 1 :: (nat, nat) thread_manager)\<lparr>job_queue := [7, 8], active_threads := [100]\<rparr>"
          "\<lambda>t. True" "\<lambda>job. job + 200"]
        controller_iteration[of
          "(ThreadManager_init 2 1 :: (nat, nat) thread_manager)\<lparr>job_queue := [8], active_threads := [100, 207]\<rparr>"
          "\<lambda>t. t \<noteq> 100" "\<lambda>job. job + 200"]
  by (simp add: ThreadManager_init_def controller_running_def cleanup_threads_def desired_worker_count_def summon_thread_from_queue_def
      cleanup_threads_from.simps)

section \<open>The rate limiter\<close>

text \<open>
  The four values of \<open>media_worker_rounding\<close> are doubles (a 53-bit mantissa times a
  power of two) at most half a unit in the last place from the number rounded; the two
  products are ties, rounded to the even mantissa.
\<close>

lemma media_worker_rounding_nearest:
  "(2 :: real) ^ 52 \<le> 8646911284551352 \<and> (8646911284551352 :: real) < 2 ^ 53 \<and>
   \<bar>8646911284551352 / 2 ^ 56 - 60 / 500 :: real\<bar> < 1 / 2 ^ 57 \<and>
   \<bar>8646911284551352 / 2 ^ 57 - 60 / 1000 :: real\<bar> < 1 / 2 ^ 58 \<and>
   (2 :: real) ^ 52 \<le> 8106479329266892 \<and> (8106479329266892 :: real) < 2 ^ 53 \<and>
   even (8106479329266892 :: int) \<and>
   \<bar>8106479329266892 / 2 ^ 50 - 8646911284551352 / 2 ^ 57 * 120 :: real\<bar> = 1 / 2 ^ 51 \<and>
   \<bar>8106479329266892 / 2 ^ 51 - 8646911284551352 / 2 ^ 57 * 60 :: real\<bar> = 1 / 2 ^ 52"
  by simp














text \<open>
  A worker constructed with \<^verbatim>\<open>min_burst_length_seconds = 0\<close> has
  \<open>min_consecutive_burst_requests = 0\<close>: the reset fires at the end of every iteration
  and the request counter never counts. With a budget of 2 burst requests, six
  computations more than a cooldown apart all return the burst interval. (The arithmetic
  of this configuration is exact in doubles.)
\<close>

lemma reset_at_every_iteration:
  "max_consecutive_burst_requests (RequestWorker_config (\<lambda>x. x) 60 120 4 0 1 1) = 2 \<and>
   min_consecutive_burst_requests (RequestWorker_config (\<lambda>x. x) 60 120 4 0 1 1) = 0 \<and>
   fst (manage_threads_job (\<lambda>x. x) (RequestWorker_config (\<lambda>x. x) 60 120 4 0 1 1)
          [Summon (\<lambda>k. 2) 2, Summon (\<lambda>k. 4) 4, Summon (\<lambda>k. 6) 6, Summon (\<lambda>k. 8) 8,
           Summon (\<lambda>k. 10) 10, Summon (\<lambda>k. 12) 12] initial_limiter)
     = [Burst, Burst, Burst, Burst, Burst, Burst]"
  by (simp add: RequestWorker_config_def initial_limiter_def RequestWorker_manage_threads_work_def
      reset_burst_state_def determine_interval.simps)




end
